theory Spec2Isabelle
  imports Complex_Main
begin

section \<open>The spaced-repetition engine (SRSEngine)\<close>

subsection \<open>Configuration constants\<close>

text \<open>
  The curriculum table \<^verbatim>\<open>PROGRESSION\<close> of config.js: per clef, the ordered list of
  \<^verbatim>\<open>{n, o}\<close> entries (note letter, octave), here pairs.
\<close>

type_synonym prog_entry = "string \<times> nat"

definition PROGRESSION :: "(string \<times> prog_entry list) list" where
  "PROGRESSION =
    [(''treble'',
       [(''C'', 4),
        (''D'', 4), (''E'', 4),
        (''B'', 3),
        (''F'', 4), (''G'', 4),
        (''A'', 4), (''B'', 4), (''C'', 5),
        (''A'', 3), (''G'', 3),
        (''D'', 5), (''E'', 5), (''F'', 5)]),
     (''bass'',
       [(''C'', 3),
        (''B'', 2), (''A'', 2),
        (''D'', 3),
        (''G'', 2), (''F'', 2),
        (''E'', 3), (''F'', 3),
        (''E'', 2), (''D'', 2), (''C'', 2)])]"

text \<open>\<^verbatim>\<open>PROGRESSION[clef] || PROGRESSION['treble']\<close>\<close>

definition progression_of :: "string \<Rightarrow> prog_entry list" where
  "progression_of clef =
     (case map_of PROGRESSION clef of
        Some prog \<Rightarrow> prog
      | None \<Rightarrow> (case map_of PROGRESSION ''treble'' of Some prog \<Rightarrow> prog | None \<Rightarrow> []))"

definition KEY_SIGNATURES :: "(string \<times> string list) list" where
  "KEY_SIGNATURES =
    [(''C'', []),
     (''G'', [''F#'']),
     (''F'', [''Bb'']),
     (''D'', [''F#'', ''C#'']),
     (''Bb'', [''Bb'', ''Eb''])]"

definition REQUIRED_STREAK_PER_NOTE :: nat where
  "REQUIRED_STREAK_PER_NOTE = 20"

subsection \<open>Engine state\<close>

text \<open>
  \<^verbatim>\<open>items = { id: { level: 0-5, nextReview: timestamp, streak: number } }\<close>.
  Records saved by an older schema have no \<^verbatim>\<open>streak\<close> field; the code tests
  \<^verbatim>\<open>item.streak === undefined\<close> in several places, so the field is optional here and
  \<open>None\<close> stands for \<^verbatim>\<open>undefined\<close>. Levels, streaks and the unlocked count are
  counts, hence natural numbers; timestamps and latencies are integers, in milliseconds.
\<close>

record item =
  level :: nat
  nextReview :: int
  streak :: "nat option"

text \<open>\<^verbatim>\<open>stats: { streak, total, correct }\<close>, the session-wide counters.\<close>

record stats =
  stats_streak :: nat
  stats_total :: nat
  stats_correct :: nat

record srs_data =
  items :: "string \<rightharpoonup> item"
  unlockedCount :: nat
  stats :: stats
  recentAttempts :: "bool list"

text \<open>
  The engine object: \<^verbatim>\<open>this.data\<close> together with the entry
  \<^verbatim>\<open>sightread_srs_data_v3\<close> of the browser's localStorage (\<open>None\<close> when absent).
\<close>

record engine =
  data :: srs_data
  localStorage :: "srs_data option"

definition freshData :: srs_data where
  "freshData = \<lparr>items = Map.empty, unlockedCount = 3,
                 stats = \<lparr>stats_streak = 0, stats_total = 0, stats_correct = 0\<rparr>,
                 recentAttempts = []\<rparr>"

text \<open>\<^verbatim>\<open>item.streak || 0\<close>\<close>

definition streak_or0 :: "item \<Rightarrow> nat" where
  "streak_or0 it = (case streak it of None \<Rightarrow> 0 | Some s \<Rightarrow> s)"

text \<open>\<^verbatim>\<open>if (item.streak === undefined) item.streak = 0\<close>\<close>

definition ensureStreak :: "item \<Rightarrow> item" where
  "ensureStreak it = (if streak it = None then it\<lparr>streak := Some 0\<rparr> else it)"

definition loadData :: "srs_data option \<Rightarrow> engine" where
  "loadData saved =
     \<lparr>data = (case saved of
                None \<Rightarrow> freshData
              | Some d \<Rightarrow> d\<lparr>items := (\<lambda>k. map_option ensureStreak (items d k))\<rparr>),
      localStorage = saved\<rparr>"

definition saveData :: "engine \<Rightarrow> engine" where
  "saveData e = e\<lparr>localStorage := Some (data e)\<rparr>"

definition resetData :: "engine \<Rightarrow> engine" where
  "resetData e = loadData None"

subsection \<open>Keys\<close>

text \<open>Decimal rendering of a number inside a template literal.\<close>

definition digit_char :: "nat \<Rightarrow> char" where
  "digit_char k =
     (if k = 0 then CHR ''0'' else if k = 1 then CHR ''1'' else if k = 2 then CHR ''2''
      else if k = 3 then CHR ''3'' else if k = 4 then CHR ''4'' else if k = 5 then CHR ''5''
      else if k = 6 then CHR ''6'' else if k = 7 then CHR ''7'' else if k = 8 then CHR ''8''
      else CHR ''9'')"

fun digits_of :: "nat \<Rightarrow> string" where
  "digits_of k =
     (if k < 10 then [digit_char k]
      else digits_of (k div 10) @ [digit_char (k mod 10)])"

declare digits_of.simps [simp del]

text \<open>\<^verbatim>\<open>`${clef}-${note}${octave}`\<close>\<close>

definition getKey :: "string \<Rightarrow> string \<Rightarrow> nat \<Rightarrow> string" where
  "getKey clef note octave = clef @ ''-'' @ note @ digits_of octave"

subsection \<open>recordResult\<close>

definition intervals :: "nat list" where
  "intervals = [1, 5, 30, 120, 720, 2880]"

text \<open>
  \<^verbatim>\<open>recordResult(cardId, isCorrect, timeDelta)\<close>; \<open>now\<close> is the value of
  \<^verbatim>\<open>Date.now()\<close> read at entry. The new level never exceeds
  \<open>length intervals - 1\<close>, so the table lookup is in range.
\<close>

definition recordResult :: "string \<Rightarrow> bool \<Rightarrow> int \<Rightarrow> int \<Rightarrow> engine \<Rightarrow> string \<times> engine" where
  "recordResult cardId isCorrect timeDelta now e =
     (let d = data e;
          item0 = (case items d cardId of
                     None \<Rightarrow> \<lparr>level = 0, nextReview = 0, streak = Some 0\<rparr>
                   | Some it \<Rightarrow> it);
          item1 = ensureStreak item0;
          oldStreak = streak_or0 item1;
          st1 = (stats d)\<lparr>stats_total := stats_total (stats d) + 1\<rparr>;
          pushed = recentAttempts d @ [isCorrect];
          recent = (if length pushed > 50 then tl pushed else pushed);
          isFast = (timeDelta \<le> 2500)
      in if isCorrect then
           let st2 = st1\<lparr>stats_streak := stats_streak st1 + 1,
                         stats_correct := stats_correct st1 + 1\<rparr>;
               item2 = item1\<lparr>streak := Some (streak_or0 item1 + 1)\<rparr>
           in if isFast then
                let lvl = min (level item2 + 1) (length intervals - 1);
                    item3 = item2\<lparr>level := lvl,
                                  nextReview := now + int (intervals ! lvl) * 60 * 1000\<rparr>
                in (''correct'',
                    saveData (e\<lparr>data := d\<lparr>items := (items d)(cardId \<mapsto> item3),
                                             stats := st2, recentAttempts := recent\<rparr>\<rparr>))
              else
                let item3 = item2\<lparr>level := max 0 (min (level item2) 2),
                                  nextReview := now + 3 * 60 * 1000\<rparr>
                in (''slow'',
                    saveData (e\<lparr>data := d\<lparr>items := (items d)(cardId \<mapsto> item3),
                                             stats := st2, recentAttempts := recent\<rparr>\<rparr>))
         else
           let st2 = st1\<lparr>stats_streak := 0\<rparr>;
               item3 = item1\<lparr>streak := Some 0, level := 0,
                             nextReview := now + 1 * 60 * 1000\<rparr>
           in (''wrong'',
               saveData (e\<lparr>data := d\<lparr>items := (items d)(cardId \<mapsto> item3),
                                        stats := st2, recentAttempts := recent\<rparr>\<rparr>)))"

subsection \<open>checkProgression\<close>

datatype error = TypeError | RangeError

text \<open>\<^verbatim>\<open>item.streak >= k\<close>; a comparison with \<^verbatim>\<open>undefined\<close> is false.\<close>

definition streakAtLeast :: "item \<Rightarrow> nat \<Rightarrow> bool" where
  "streakAtLeast it k = (case streak it of None \<Rightarrow> False | Some s \<Rightarrow> k \<le> s)"

text \<open>
  The loop of \<^verbatim>\<open>checkProgression\<close> over \<^verbatim>\<open>prog[0] .. prog[currentUnlocked-1]\<close>. It
  runs only when \<^verbatim>\<open>currentUnlocked < prog.length\<close>, so every index is in range and the
  loop is a recursion over the entries themselves. The result is the \<^verbatim>\<open>items\<close> object
  as the loop leaves it (it initialises a missing streak in place) and either \<open>None\<close>,
  when a note without a record made the function return false, or the two counters
  \<^verbatim>\<open>notesReady\<close> and \<^verbatim>\<open>totalUnlocked\<close>.
\<close>

fun progressionLoop ::
  "string \<Rightarrow> prog_entry list \<Rightarrow> (string \<rightharpoonup> item) \<Rightarrow> nat \<Rightarrow> nat
     \<Rightarrow> (string \<rightharpoonup> item) \<times> (nat \<times> nat) option" where
  "progressionLoop clef [] its notesReady totalUnlocked = (its, Some (notesReady, totalUnlocked))"
| "progressionLoop clef (p # ps) its notesReady totalUnlocked =
     (let ident = getKey clef (fst p) (snd p) in
      case its ident of
        None \<Rightarrow> (its, None)
      | Some it \<Rightarrow>
          let it' = ensureStreak it
          in progressionLoop clef ps (its(ident \<mapsto> it'))
               (if streakAtLeast it' REQUIRED_STREAK_PER_NOTE then notesReady + 1 else notesReady)
               (totalUnlocked + 1))"

definition checkProgression :: "string \<Rightarrow> engine \<Rightarrow> bool \<times> engine" where
  "checkProgression clef e =
     (let prog = progression_of clef;
          maxN = length prog;
          currentUnlocked = unlockedCount (data e)
      in if currentUnlocked \<ge> maxN then (False, e)
         else
           case progressionLoop clef (take currentUnlocked prog) (items (data e)) 0 0 of
             (its, None) \<Rightarrow> (False, e\<lparr>data := (data e)\<lparr>items := its\<rparr>\<rparr>)
           | (its, Some (notesReady, totalUnlocked)) \<Rightarrow>
               if totalUnlocked > 0 \<and> notesReady = totalUnlocked
               then (True, saveData (e\<lparr>data := (data e)\<lparr>items := its,
                                      unlockedCount := unlockedCount (data e) + 1\<rparr>\<rparr>))
               else (False, e\<lparr>data := (data e)\<lparr>items := its\<rparr>\<rparr>))"

subsection \<open>checkRegression\<close>

text \<open>
  The loop of \<^verbatim>\<open>checkRegression\<close> over the indices \<^verbatim>\<open>0 .. currentUnlocked-1\<close>. Nothing
  bounds \<^verbatim>\<open>currentUnlocked\<close> by \<^verbatim>\<open>prog.length\<close> here: past the end \<^verbatim>\<open>prog[i]\<close> is
  \<^verbatim>\<open>undefined\<close> and reading \<^verbatim>\<open>p.n\<close> throws a TypeError.
\<close>

fun regressionLoop ::
  "string \<Rightarrow> prog_entry list \<Rightarrow> (string \<rightharpoonup> item) \<Rightarrow> nat list \<Rightarrow> nat \<Rightarrow> nat
     \<Rightarrow> error + (nat \<times> nat)" where
  "regressionLoop clef prog its [] notesWithLowStreak totalUnlocked =
     Inr (notesWithLowStreak, totalUnlocked)"
| "regressionLoop clef prog its (i # rest) notesWithLowStreak totalUnlocked =
     (if i < length prog then
        let p = prog ! i;
            ident = getKey clef (fst p) (snd p)
        in regressionLoop clef prog its rest
             (case its ident of
                Some it \<Rightarrow> (if streak_or0 it < REQUIRED_STREAK_PER_NOTE
                            then notesWithLowStreak + 1 else notesWithLowStreak)
              | None \<Rightarrow> notesWithLowStreak + 1)
             (totalUnlocked + 1)
      else Inl TypeError)"

definition checkRegression :: "string \<Rightarrow> engine \<Rightarrow> error + (bool \<times> engine)" where
  "checkRegression clef e =
     (let prog = progression_of clef;
          currentUnlocked = unlockedCount (data e)
      in if currentUnlocked \<le> 3 then Inr (False, e)
         else
           case regressionLoop clef prog (items (data e)) [0..<currentUnlocked] 0 0 of
             Inl err \<Rightarrow> Inl err
           | Inr (notesWithLowStreak, totalUnlocked) \<Rightarrow>
               let lowStreakRatio = (if totalUnlocked > 0
                                     then real notesWithLowStreak / real totalUnlocked else 0)
               in if totalUnlocked > 0 \<and> lowStreakRatio > 0.5
                  then Inr (True, saveData (e\<lparr>data := (data e)\<lparr>unlockedCount :=
                                                     max 3 (currentUnlocked - 1)\<rparr>\<rparr>))
                  else Inr (False, e))"

subsection \<open>generateCard\<close>

record card =
  card_clef :: string
  card_keySig :: string
  card_note :: string
  card_octave :: nat
  card_accidental :: "string option"
  card_id :: string

record pools =
  candidates :: "card list"
  dueItems :: "card list"
  newItems :: "card list"
  strugglingItems :: "card list"

text \<open>\<^verbatim>\<open>mod.startsWith(n)\<close>\<close>

definition startsWith :: "string \<Rightarrow> string \<Rightarrow> bool" where
  "startsWith m n = (take (length n) m = n)"

text \<open>
  The accidental a key signature gives a note letter: the \<^verbatim>\<open>forEach\<close> over
  \<^verbatim>\<open>sigNotes\<close>, starting from \<^verbatim>\<open>null\<close>.
\<close>

definition accidentalFor :: "string list \<Rightarrow> string \<Rightarrow> string option" where
  "accidentalFor sigNotes n =
     foldl (\<lambda>accidental m.
              if startsWith m n then (if length m > 1 then Some (drop 1 m) else accidental)
              else accidental) None sigNotes"

definition makeCard :: "string \<Rightarrow> string \<Rightarrow> string list \<Rightarrow> prog_entry \<Rightarrow> card" where
  "makeCard clef keySig sigNotes p =
     \<lparr>card_clef = clef, card_keySig = keySig, card_note = fst p, card_octave = snd p,
      card_accidental = accidentalFor sigNotes (fst p),
      card_id = getKey clef (fst p) (snd p)\<rparr>"

text \<open>\<^verbatim>\<open>Math.min(this.data.unlockedCount, prog.length)\<close>\<close>

definition unlockedLimit :: "string \<Rightarrow> engine \<Rightarrow> nat" where
  "unlockedLimit clef e = min (unlockedCount (data e)) (length (progression_of clef))"

text \<open>
  The pool-building loop over \<^verbatim>\<open>prog[0] .. prog[limit-1]\<close> (in range, since
  \<^verbatim>\<open>limit \<le> prog.length\<close>). A key signature that is not in \<^verbatim>\<open>KEY_SIGNATURES\<close>
  makes \<^verbatim>\<open>sigNotes.forEach\<close> throw in the first round.
\<close>

fun poolLoop ::
  "string \<Rightarrow> string \<Rightarrow> int \<Rightarrow> prog_entry list \<Rightarrow> (string \<rightharpoonup> item) \<Rightarrow> pools
     \<Rightarrow> error + ((string \<rightharpoonup> item) \<times> pools)" where
  "poolLoop clef keySig now [] its ps = Inr (its, ps)"
| "poolLoop clef keySig now (p # rest) its ps =
     (case map_of KEY_SIGNATURES keySig of
        None \<Rightarrow> Inl TypeError
      | Some sigNotes \<Rightarrow>
          let ident = getKey clef (fst p) (snd p);
              c = makeCard clef keySig sigNotes p
          in case its ident of
               None \<Rightarrow> poolLoop clef keySig now rest its (ps\<lparr>newItems := newItems ps @ [c]\<rparr>)
             | Some it \<Rightarrow>
                 let it' = ensureStreak it;
                     ps1 = (if nextReview it' \<le> now
                            then ps\<lparr>dueItems := dueItems ps @ [c]\<rparr> else ps);
                     ps2 = (if level it' = 0 \<or> streak_or0 it' < REQUIRED_STREAK_PER_NOTE
                            then ps1\<lparr>strugglingItems := strugglingItems ps1 @ [c]\<rparr>
                            else ps1);
                     ps3 = ps2\<lparr>candidates := candidates ps2 @ [c]\<rparr>
                 in poolLoop clef keySig now rest (its(ident \<mapsto> it')) ps3)"

text \<open>
  \<^verbatim>\<open>xs[Math.floor(r * xs.length)]\<close>; reading past the end of an array gives
  \<^verbatim>\<open>undefined\<close>, here \<open>None\<close>.
\<close>

definition pick :: "card list \<Rightarrow> real \<Rightarrow> card option" where
  "pick xs r =
     (let i = \<lfloor>r * real (length xs)\<rfloor>
      in if 0 \<le> i \<and> i < int (length xs) then Some (xs ! nat i) else None)"

definition fallbackCard :: "string \<Rightarrow> string \<Rightarrow> card" where
  "fallbackCard clef keySig =
     \<lparr>card_clef = clef, card_keySig = keySig, card_note = ''C'', card_octave = 4,
      card_accidental = None, card_id = ''fallback''\<rparr>"

text \<open>
  The weighted selection. \<open>rnd k\<close> is the value of the \<open>k\<close>-th call of
  \<^verbatim>\<open>Math.random()\<close> made by this invocation (counting from 0); \<^verbatim>\<open>&&\<close> does not
  evaluate its right operand when the pool is empty, so the position of a draw depends on
  the pools before it.
\<close>

definition selectCard :: "pools \<Rightarrow> (nat \<Rightarrow> real) \<Rightarrow> card \<Rightarrow> card option" where
  "selectCard ps rnd fallback =
     (if strugglingItems ps \<noteq> [] \<and> rnd 0 < 0.4 then pick (strugglingItems ps) (rnd 1)
      else
        let k = (if strugglingItems ps \<noteq> [] then 1 else 0::nat) in
        if newItems ps \<noteq> [] \<and> rnd k < 0.3
        then (case newItems ps of c # _ \<Rightarrow> Some c | [] \<Rightarrow> None)
        else
          let k' = (if newItems ps \<noteq> [] then k + 1 else k) in
          if dueItems ps \<noteq> [] then pick (dueItems ps) (rnd k')
          else if candidates ps \<noteq> [] then pick (candidates ps) (rnd k')
          else Some fallback)"

definition emptyPools :: pools where
  "emptyPools = \<lparr>candidates = [], dueItems = [], newItems = [], strugglingItems = []\<rparr>"

text \<open>
  \<^verbatim>\<open>generateCard(clef, keySig)\<close>; \<open>now\<close> is the value of \<^verbatim>\<open>Date.now()\<close>. The result is
  the returned card (\<open>None\<close> for \<^verbatim>\<open>undefined\<close>) and the engine, whose items the loop
  may have touched.
\<close>

definition generateCard ::
  "string \<Rightarrow> string \<Rightarrow> int \<Rightarrow> (nat \<Rightarrow> real) \<Rightarrow> engine \<Rightarrow> error + (card option \<times> engine)" where
  "generateCard clef keySig now rnd e =
     (let prog = progression_of clef;
          limit = unlockedLimit clef e
      in case poolLoop clef keySig now (take limit prog) (items (data e)) emptyPools of
           Inl err \<Rightarrow> Inl err
         | Inr (its, ps) \<Rightarrow>
             Inr (selectCard ps rnd (fallbackCard clef keySig),
                  e\<lparr>data := (data e)\<lparr>items := its\<rparr>\<rparr>))"

subsection \<open>Example states\<close>

text \<open>
  A store in which the first \<open>k\<close> treble notes have been answered correctly and fast
  twenty times in a row and exactly those notes are unlocked.
\<close>

definition masteredItem :: item where
  "masteredItem = \<lparr>level = 5, nextReview = 0, streak = Some 20\<rparr>"

definition trebleMastered :: "nat \<Rightarrow> engine" where
  "trebleMastered k =
     \<lparr>data = freshData\<lparr>
        items := map_of (map (\<lambda>p. (getKey ''treble'' (fst p) (snd p), masteredItem))
                          (take k (progression_of ''treble''))),
        unlockedCount := k\<rparr>,
      localStorage = None\<rparr>"

subsection \<open>Observing a mastery record\<close>

text \<open>
  The mastery record stored under an id, and its streak and level as \<^verbatim>\<open>recordResult\<close>
  sees them at entry: a missing record is created with level 0 and streak 0, a missing
  streak is initialised to 0. \<open>recordView\<close> lists the three fields of the stored record.
\<close>

definition recordOf :: "engine \<Rightarrow> string \<Rightarrow> item option" where
  "recordOf e cardId = items (data e) cardId"

definition streakOf :: "engine \<Rightarrow> string \<Rightarrow> nat" where
  "streakOf e cardId = (case recordOf e cardId of None \<Rightarrow> 0 | Some r \<Rightarrow> streak_or0 r)"

definition levelOf :: "engine \<Rightarrow> string \<Rightarrow> nat" where
  "levelOf e cardId = (case recordOf e cardId of None \<Rightarrow> 0 | Some r \<Rightarrow> level r)"

definition recordView :: "engine \<Rightarrow> string \<Rightarrow> (nat option \<times> nat \<times> int) option" where
  "recordView e cardId = map_option (\<lambda>r. (streak r, level r, nextReview r)) (recordOf e cardId)"

definition persisted :: "engine \<Rightarrow> bool" where
  "persisted e = (localStorage e = Some (data e))"

subsection \<open>Observing the unlocked prefix\<close>

text \<open>
  The key of a curriculum entry, \<^verbatim>\<open>getKey(clef, p.n, p.o)\<close>; the unlocked prefix of the
  curriculum of a clef, its first \<^verbatim>\<open>unlockedCount\<close> entries; and the test both checks apply
  to a key: a record is present and its streak has reached the required streak.
\<close>

definition keyOf :: "string \<Rightarrow> prog_entry \<Rightarrow> string" where
  "keyOf clef p = getKey clef (fst p) (snd p)"

definition unlockedPrefix :: "string \<Rightarrow> engine \<Rightarrow> prog_entry list" where
  "unlockedPrefix clef e = take (unlockedCount (data e)) (progression_of clef)"

definition readyAt :: "(string \<rightharpoonup> item) \<Rightarrow> string \<Rightarrow> bool" where
  "readyAt its k =
     (case its k of None \<Rightarrow> False | Some it \<Rightarrow> REQUIRED_STREAK_PER_NOTE \<le> streak_or0 it)"

definition allMastered :: "string \<Rightarrow> engine \<Rightarrow> bool" where
  "allMastered clef e =
     (\<forall>p \<in> set (unlockedPrefix clef e). readyAt (items (data e)) (keyOf clef p))"

text \<open>The number of unlocked entries whose record is missing or below the required streak.\<close>

definition lowCount :: "string \<Rightarrow> engine \<Rightarrow> nat" where
  "lowCount clef e =
     length (filter (\<lambda>p. \<not> readyAt (items (data e)) (keyOf clef p)) (unlockedPrefix clef e))"

subsection \<open>Observing the selector\<close>

text \<open>
  The tests \<^verbatim>\<open>generateCard\<close> applies to the record under a key (due for review;
  struggling: level 0 or streak below the required streak), whether any unlocked entry is
  struggling, the first unlocked entry without a record, and the condition under which the
  new-note branch returns: there is such an entry, the struggling branch did not return
  (its pool was empty, or its draw was not below 0.4), and the draw of the new-note branch,
  the next one in sequence, is below 0.3.
\<close>

definition dueAt :: "(string \<rightharpoonup> item) \<Rightarrow> int \<Rightarrow> string \<Rightarrow> bool" where
  "dueAt its now k = (case its k of None \<Rightarrow> False | Some it \<Rightarrow> nextReview it \<le> now)"

definition strugglingAt :: "(string \<rightharpoonup> item) \<Rightarrow> string \<Rightarrow> bool" where
  "strugglingAt its k =
     (case its k of None \<Rightarrow> False
      | Some it \<Rightarrow> level it = 0 \<or> streak_or0 it < REQUIRED_STREAK_PER_NOTE)"

definition anyStruggling :: "string \<Rightarrow> engine \<Rightarrow> bool" where
  "anyStruggling clef e =
     (\<exists>p \<in> set (unlockedPrefix clef e). strugglingAt (items (data e)) (keyOf clef p))"

definition firstNew :: "string \<Rightarrow> engine \<Rightarrow> prog_entry option" where
  "firstNew clef e = find (\<lambda>p. recordOf e (keyOf clef p) = None) (unlockedPrefix clef e)"

definition newBranchTaken :: "string \<Rightarrow> (nat \<Rightarrow> real) \<Rightarrow> engine \<Rightarrow> bool" where
  "newBranchTaken clef rnd e =
     (firstNew clef e \<noteq> None
      \<and> (if anyStruggling clef e then \<not> rnd 0 < 0.4 \<and> rnd 1 < 0.3 else rnd 0 < 0.3))"

section \<open>The pitch detector (PitchDetector)\<close>

text \<open>
  JavaScript numbers are modelled as real numbers: the rounding of floating-point
  arithmetic is left out, and where an operation of the source yields \<^verbatim>\<open>NaN\<close>,
  an infinity or \<^verbatim>\<open>undefined\<close> the model says so explicitly.
\<close>

subsection \<open>frequencyToNote\<close>

record detected_note =
  note_name :: string
  note_octave :: int
  note_frequency :: real
  note_accidental :: "string option"

definition noteNames :: "string list" where
  "noteNames = [''C'', ''C#'', ''D'', ''D#'', ''E'', ''F'', ''F#'', ''G'', ''G#'', ''A'', ''A#'', ''B'']"

text \<open>The remainder operator \<^verbatim>\<open>%\<close> on integers: the result has the sign of the dividend.\<close>

definition js_rem :: "int \<Rightarrow> int \<Rightarrow> int" where
  "js_rem a b = sgn a * (\<bar>a\<bar> mod \<bar>b\<bar>)"

text \<open>\<^verbatim>\<open>noteName.includes('#') ? '#' : null\<close>\<close>

definition accidentalOf :: "string \<Rightarrow> string option" where
  "accidentalOf noteName = (if CHR ''#'' \<in> set noteName then Some ''#'' else None)"

text \<open>
  \<^verbatim>\<open>frequencyToNote\<close> of src/pitch-detector.js (lines 136-158). \<^verbatim>\<open>Math.round\<close> rounds
  halves up, as \<open>round\<close> does; \<open>noteIndex\<close> lies in \<open>0..11\<close>, so the table lookup
  is in range. \<open>None\<close> is the \<^verbatim>\<open>null\<close> returned for a frequency that is not positive.
\<close>

definition frequencyToNote :: "real \<Rightarrow> detected_note option" where
  "frequencyToNote frequency =
     (if frequency \<le> 0 then None
      else
        let A4 = 440;
            semitones = 12 * log 2 (frequency / A4);
            noteNumber = round semitones + 9;
            octave = 4 + \<lfloor>real_of_int (noteNumber + 9) / 12\<rfloor>;
            noteIndex = js_rem (js_rem noteNumber 12 + 12) 12;
            noteName = noteNames ! nat noteIndex
        in Some \<lparr>note_name = noteName, note_octave = octave, note_frequency = frequency,
                  note_accidental = accidentalOf noteName\<rparr>)"

text \<open>
  \<^verbatim>\<open>frequencyToNote\<close> as revised in src/unnamed/part_006 (lines 305-338), which counts
  semitones from C0.
\<close>

definition frequencyToNote_rev :: "real \<Rightarrow> detected_note option" where
  "frequencyToNote_rev frequency =
     (if frequency \<le> 0 then None
      else
        let A4 = 440;
            semitonesFromA4 = 12 * log 2 (frequency / A4);
            roundedSemitones = round semitonesFromA4;
            A4_semitonesFromC0 = 4 * 12 + 9;
            noteNumberFromC0 = A4_semitonesFromC0 + roundedSemitones;
            octave = \<lfloor>real_of_int noteNumberFromC0 / 12\<rfloor>;
            noteIndex = js_rem (js_rem noteNumberFromC0 12 + 12) 12;
            noteName = noteNames ! nat noteIndex
        in Some \<lparr>note_name = noteName, note_octave = octave, note_frequency = frequency,
                  note_accidental = accidentalOf noteName\<rparr>)"

subsection \<open>findFundamentalFrequency (src/unnamed/part_006)\<close>

text \<open>
  The array \<^verbatim>\<open>correlations\<close> is created with \<^verbatim>\<open>new Array(n)\<close> and filled from
  \<^verbatim>\<open>MIN_SAMPLES\<close> upwards: a list of length \<open>n\<close> whose untouched slots are \<open>None\<close>
  (\<^verbatim>\<open>undefined\<close>). Reading outside the array gives \<^verbatim>\<open>undefined\<close> too.
\<close>

definition corrAt :: "real option list \<Rightarrow> int \<Rightarrow> real option" where
  "corrAt correlations i =
     (if 0 \<le> i \<and> i < int (length correlations) then correlations ! nat i else None)"

definition expectedMin :: real where "expectedMin = 60"
definition expectedMax :: real where "expectedMax = 400"

text \<open>
  The loop over \<^verbatim>\<open>harmonics\<close>, carrying \<^verbatim>\<open>bestFundamental\<close> and
  \<^verbatim>\<open>bestFundamentalCorrelation\<close>. A candidate outside the expected range is skipped
  (\<^verbatim>\<open>continue\<close>); so is one whose lag is outside the array or not yet filled.
\<close>

fun harmonicLoop ::
  "real \<Rightarrow> real option list \<Rightarrow> real \<Rightarrow> int \<Rightarrow> real list \<Rightarrow> real \<times> real \<Rightarrow> real \<times> real" where
  "harmonicLoop detectedFreq correlations sampleRate minSamples [] best = best"
| "harmonicLoop detectedFreq correlations sampleRate minSamples (harmonic # rest)
       (bestFundamental, bestFundamentalCorrelation) =
     (let candidateFundamental = detectedFreq / harmonic in
      if candidateFundamental < expectedMin \<or> candidateFundamental > expectedMax
      then harmonicLoop detectedFreq correlations sampleRate minSamples rest
             (bestFundamental, bestFundamentalCorrelation)
      else
        let candidateOffset = round (sampleRate / candidateFundamental) in
        case (if candidateOffset \<ge> minSamples \<and> candidateOffset < int (length correlations)
              then corrAt correlations candidateOffset else None) of
          None \<Rightarrow> harmonicLoop detectedFreq correlations sampleRate minSamples rest
                    (bestFundamental, bestFundamentalCorrelation)
        | Some candidateCorrelation \<Rightarrow>
            if candidateCorrelation > bestFundamentalCorrelation * 0.7
               \<and> candidateFundamental < bestFundamental
            then harmonicLoop detectedFreq correlations sampleRate minSamples rest
                   (candidateFundamental, candidateCorrelation)
            else harmonicLoop detectedFreq correlations sampleRate minSamples rest
                   (bestFundamental, bestFundamentalCorrelation))"

text \<open>
  \<^verbatim>\<open>findFundamentalFrequency\<close>; the sentinel is \<open>-1\<close>. The initial
  \<^verbatim>\<open>detectedCorrelation || 0\<close> is \<^verbatim>\<open>detectedCorrelation\<close> itself for every number.
\<close>

definition findFundamentalFrequency ::
  "real \<Rightarrow> real option list \<Rightarrow> real \<Rightarrow> int \<Rightarrow> real \<Rightarrow> real" where
  "findFundamentalFrequency detectedFreq correlations sampleRate minSamples detectedCorrelation =
     (let harmonics = [2, 3, 4, 5, 6] in
      if detectedFreq > 450 then - 1
      else
        let (bestFundamental, bestFundamentalCorrelation) =
              harmonicLoop detectedFreq correlations sampleRate minSamples harmonics
                (detectedFreq, detectedCorrelation)
        in if bestFundamental < detectedFreq \<and> bestFundamentalCorrelation > 0.3
           then bestFundamental
           else if detectedFreq < expectedMin \<or> detectedFreq > expectedMax then - 1
           else detectedFreq)"

subsection \<open>autocorrelate, revised\<close>

text \<open>
  The parabolic interpolation around \<^verbatim>\<open>bestOffset\<close> and the frequency it gives. \<open>None\<close>
  stands for every outcome that is not a finite number other than zero: \<^verbatim>\<open>NaN\<close> when a
  slot read is \<^verbatim>\<open>undefined\<close>, and \<^verbatim>\<open>NaN\<close>, zero or an infinity when a divisor is
  zero. For each of them \<^verbatim>\<open>findFundamentalFrequency\<close> returns \<^verbatim>\<open>NaN\<close> or \<open>-1\<close>, so
  the test \<^verbatim>\<open>fundamental > 0\<close> that follows fails.
\<close>

definition interpolatedFrequency :: "real \<Rightarrow> real option list \<Rightarrow> int \<Rightarrow> real option" where
  "interpolatedFrequency sampleRate correlations bestOffset =
     (case (corrAt correlations (bestOffset + 1), corrAt correlations (bestOffset - 1),
            corrAt correlations bestOffset) of
        (Some nextC, Some prevC, Some bestC) \<Rightarrow>
          if bestC = 0 then None
          else
            let shift = (nextC - prevC) / (2 * bestC) in
            if real_of_int bestOffset + shift = 0 then None
            else Some (sampleRate / (real_of_int bestOffset + shift))
      | _ \<Rightarrow> None)"

text \<open>The local variables the main loop over the lags updates.\<close>

record lag_state =
  bestOffset :: int
  bestCorrelation :: real
  foundGoodCorrelation :: bool
  lastCorrelation :: real
  correlations :: "real option list"

text \<open>
  \<^verbatim>\<open>sum(x[i] * x[i + offset]) / count\<close> over \<^verbatim>\<open>i < SIZE - offset\<close>; the division is
  skipped when \<^verbatim>\<open>count\<close> is 0.
\<close>

definition correlationAt :: "real list \<Rightarrow> int \<Rightarrow> real" where
  "correlationAt normalizedBuffer offset =
     (let count = int (length normalizedBuffer) - offset;
          s = (\<Sum>i\<leftarrow>[0..<nat count]. normalizedBuffer ! i * normalizedBuffer ! (i + nat offset))
      in if count > 0 then s / real_of_int count else s)"

text \<open>
  The main loop over the lags \<^verbatim>\<open>MIN_SAMPLES .. ACTUAL_MAX_SAMPLES - 1\<close>: \<open>Inl f\<close> when
  the loop body returns \<open>f\<close>, \<open>Inr st\<close> when the loop runs to its end.
\<close>

fun lagLoop ::
  "real \<Rightarrow> real list \<Rightarrow> int \<Rightarrow> int \<Rightarrow> int list \<Rightarrow> lag_state \<Rightarrow> real + lag_state" where
  "lagLoop sampleRate normalizedBuffer minS maxS [] st = Inr st"
| "lagLoop sampleRate normalizedBuffer minS maxS (offset # rest) st =
     (let correlation = correlationAt normalizedBuffer offset;
          st1 = st\<lparr>correlations := (correlations st)[nat offset := Some correlation]\<rparr>;
          st2 = (if correlation > bestCorrelation st1
                 then st1\<lparr>bestCorrelation := correlation, bestOffset := offset\<rparr> else st1)
      in if correlation > 0.60 \<and> correlation > lastCorrelation st2
         then lagLoop sampleRate normalizedBuffer minS maxS rest
                (st2\<lparr>foundGoodCorrelation := True, lastCorrelation := correlation\<rparr>)
         else
           case (if foundGoodCorrelation st2 \<and> correlation < bestCorrelation st2 * 0.9
                    \<and> bestOffset st2 > 0 \<and> bestOffset st2 < maxS - 1 \<and> bestOffset st2 > minS
                 then interpolatedFrequency sampleRate (correlations st2) (bestOffset st2)
                 else None) of
             None \<Rightarrow> lagLoop sampleRate normalizedBuffer minS maxS rest
                       (st2\<lparr>lastCorrelation := correlation\<rparr>)
           | Some frequency \<Rightarrow>
               let fundamental = findFundamentalFrequency frequency (correlations st2) sampleRate
                                   minS (bestCorrelation st2)
               in if fundamental > 0 then Inl fundamental
                  else lagLoop sampleRate normalizedBuffer minS maxS rest
                         (st2\<lparr>lastCorrelation := correlation\<rparr>))"

record peak =
  peak_offset :: int
  peak_correlation :: real
  peak_frequency :: real

text \<open>The test that makes a lag a peak; a comparison with \<^verbatim>\<open>undefined\<close> is false.\<close>

definition isPeak :: "real option list \<Rightarrow> int \<Rightarrow> bool" where
  "isPeak cs offset =
     (case (corrAt cs offset, corrAt cs (offset - 1), corrAt cs (offset + 1),
            corrAt cs (offset - 2), corrAt cs (offset + 2)) of
        (Some c, Some l1, Some r1, Some l2, Some r2) \<Rightarrow>
          c > 0.3 \<and> c > l1 \<and> c > r1 \<and> c > l2 * 0.9 \<and> c > r2 * 0.9
      | _ \<Rightarrow> False)"

definition findPeaks :: "real \<Rightarrow> real option list \<Rightarrow> int \<Rightarrow> int \<Rightarrow> peak list" where
  "findPeaks sampleRate cs minS maxS =
     map (\<lambda>offset. \<lparr>peak_offset = offset,
                     peak_correlation = (case corrAt cs offset of Some c \<Rightarrow> c | None \<Rightarrow> 0),
                     peak_frequency = sampleRate / real_of_int offset\<rparr>)
         (filter (isPeak cs) [minS + 2 .. maxS - 2 - 1])"

text \<open>
  The loop over the peaks sorted by frequency: \<open>Some f\<close> when its body returns \<open>f\<close>.
\<close>

fun peakLoop ::
  "real \<Rightarrow> real option list \<Rightarrow> real \<Rightarrow> int \<Rightarrow> real \<Rightarrow> peak list \<Rightarrow> real option" where
  "peakLoop frequency cs sampleRate minS bestCorr [] = None"
| "peakLoop frequency cs sampleRate minS bestCorr (lowerPeak # rest) =
     (if peak_frequency lowerPeak \<ge> 60 \<and> peak_frequency lowerPeak \<le> 400 then
        let ratio = frequency / peak_frequency lowerPeak in
        if ratio > 1.8 \<and> ratio < 2.2 then
          (if peak_correlation lowerPeak > bestCorr * 0.6 then
             let fundamental = findFundamentalFrequency frequency cs sampleRate minS bestCorr
             in if fundamental > 0 then Some fundamental
                else peakLoop frequency cs sampleRate minS bestCorr rest
           else peakLoop frequency cs sampleRate minS bestCorr rest)
        else if ratio > 2.8 \<and> ratio < 3.2 then
          (if peak_correlation lowerPeak > bestCorr * 0.5 then
             let fundamental = findFundamentalFrequency frequency cs sampleRate minS bestCorr
             in if fundamental > 0 then Some fundamental
                else peakLoop frequency cs sampleRate minS bestCorr rest
           else peakLoop frequency cs sampleRate minS bestCorr rest)
        else peakLoop frequency cs sampleRate minS bestCorr rest
      else peakLoop frequency cs sampleRate minS bestCorr rest)"

text \<open>What \<^verbatim>\<open>autocorrelate\<close> does once the main loop has run to its end.\<close>

definition afterLoop :: "real \<Rightarrow> int \<Rightarrow> int \<Rightarrow> lag_state \<Rightarrow> real" where
  "afterLoop sampleRate minS maxS st =
     (let peaks = findPeaks sampleRate (correlations st) minS maxS in
      if bestCorrelation st > 0.001 \<and> bestOffset st > 0 \<and> bestOffset st \<ge> minS then
        let frequency = sampleRate / real_of_int (bestOffset st) in
        case peakLoop frequency (correlations st) sampleRate minS (bestCorrelation st)
               (sort_key peak_frequency peaks) of
          Some fundamental \<Rightarrow> fundamental
        | None \<Rightarrow>
            let fundamental = findFundamentalFrequency frequency (correlations st) sampleRate
                                minS (bestCorrelation st)
            in if fundamental > 0 \<and> fundamental \<noteq> frequency then fundamental
               else if fundamental < 0 then - 1
               else frequency
      else - 1)"

text \<open>
  \<^verbatim>\<open>autocorrelate(buffer, sampleRate)\<close> as revised in src/unnamed/part_006 (lines 85-247). \<^verbatim>\<open>new Array(n)\<close> throws a
  RangeError for a negative \<open>n\<close>, which a negative sample rate produces. For an empty
  buffer the root mean square is \<^verbatim>\<open>NaN\<close> and the test against the noise floor is false.
\<close>

definition rootMeanSquare :: "real list \<Rightarrow> real" where
  "rootMeanSquare buffer = sqrt ((\<Sum>v\<leftarrow>buffer. v * v) / real (length buffer))"

definition peakAmplitude :: "real list \<Rightarrow> real" where
  "peakAmplitude buffer = foldl (\<lambda>maxVal v. if \<bar>v\<bar> > maxVal then \<bar>v\<bar> else maxVal) 0 buffer"

definition autocorrelate_rev :: "real list \<Rightarrow> real \<Rightarrow> error + real" where
  "autocorrelate_rev buffer sampleRate =
     (let MIN_FREQUENCY = 60;
          MAX_FREQUENCY = 500;
          MIN_SAMPLES = \<lfloor>sampleRate / MAX_FREQUENCY\<rfloor>;
          MAX_SAMPLES = \<lfloor>sampleRate / MIN_FREQUENCY\<rfloor>;
          SIZE = length buffer;
          ACTUAL_MAX_SAMPLES = min MAX_SAMPLES (\<lfloor>real SIZE / 2\<rfloor>)
      in if ACTUAL_MAX_SAMPLES < 0 then Inl RangeError
         else if SIZE \<noteq> 0 \<and> rootMeanSquare buffer < 0.005 then Inr (- 1)
         else
           let maxVal = peakAmplitude buffer in
           if maxVal = 0 then Inr (- 1)
           else
             let normalizedBuffer = map (\<lambda>v. v / maxVal) buffer in
             case lagLoop sampleRate normalizedBuffer MIN_SAMPLES ACTUAL_MAX_SAMPLES
                    [MIN_SAMPLES .. ACTUAL_MAX_SAMPLES - 1]
                    \<lparr>bestOffset = - 1, bestCorrelation = 0, foundGoodCorrelation = False,
                     lastCorrelation = 1,
                     correlations = replicate (nat ACTUAL_MAX_SAMPLES) None\<rparr> of
               Inl fundamental \<Rightarrow> Inr fundamental
             | Inr st \<Rightarrow> Inr (afterLoop sampleRate MIN_SAMPLES ACTUAL_MAX_SAMPLES st))"

subsection \<open>autocorrelate, first version\<close>

text \<open>
  \<^verbatim>\<open>autocorrelate\<close> of src/pitch-detector.js (lines 85-134). It has no frequency band and
  no harmonic correction, and nothing of \<^verbatim>\<open>findFundamentalFrequency\<close>: the correlation at
  a lag is one minus the mean absolute difference over the first half of the buffer, and
  the lags run from \<^verbatim>\<open>MIN_SAMPLES = 0\<close> to \<^verbatim>\<open>MAX_SAMPLES - 1\<close>.
\<close>

definition differenceCorrelation :: "real list \<Rightarrow> nat \<Rightarrow> int \<Rightarrow> real" where
  "differenceCorrelation buffer maxS offset =
     1 - (\<Sum>i\<leftarrow>[0..<maxS]. \<bar>buffer ! i - buffer ! (i + nat offset)\<bar>) / real maxS"

text \<open>
  \<^verbatim>\<open>sampleRate / (bestOffset + (8 * shift))\<close> with
  \<^verbatim>\<open>shift = (correlations[bestOffset + 1] - correlations[bestOffset - 1]) / correlations[bestOffset]\<close>.
  \<open>None\<close> stands for every outcome that is not a finite number other than zero
  (\<^verbatim>\<open>NaN\<close> when a slot read is \<^verbatim>\<open>undefined\<close>; \<^verbatim>\<open>NaN\<close>, zero or an infinity when a
  divisor is zero).
\<close>

definition shiftedFrequency :: "real \<Rightarrow> real option list \<Rightarrow> int \<Rightarrow> real option" where
  "shiftedFrequency sampleRate cs bestOff =
     (case (corrAt cs (bestOff + 1), corrAt cs (bestOff - 1), corrAt cs bestOff) of
        (Some nextC, Some prevC, Some bestC) \<Rightarrow>
          if bestC = 0 then None
          else
            let shift = (nextC - prevC) / bestC in
            if real_of_int bestOff + 8 * shift = 0 then None
            else Some (sampleRate / (real_of_int bestOff + 8 * shift))
      | _ \<Rightarrow> None)"

text \<open>
  The loop over the lags: \<open>Inl r\<close> when the loop body returns \<open>r\<close>, \<open>Inr st\<close> when
  the loop runs to its end.
\<close>

fun offsetLoop ::
  "real \<Rightarrow> real list \<Rightarrow> nat \<Rightarrow> int list \<Rightarrow> lag_state \<Rightarrow> real option + lag_state" where
  "offsetLoop sampleRate buffer maxS [] st = Inr st"
| "offsetLoop sampleRate buffer maxS (offset # rest) st =
     (let correlation = differenceCorrelation buffer maxS offset;
          st1 = st\<lparr>correlations := (correlations st)[nat offset := Some correlation]\<rparr>
      in if correlation > 0.9 \<and> correlation > lastCorrelation st1
         then
           let st2 = (if correlation > bestCorrelation st1
                      then st1\<lparr>bestCorrelation := correlation, bestOffset := offset\<rparr>
                      else st1)
           in offsetLoop sampleRate buffer maxS rest
                (st2\<lparr>foundGoodCorrelation := True, lastCorrelation := correlation\<rparr>)
         else if foundGoodCorrelation st1
         then Inl (shiftedFrequency sampleRate (correlations st1) (bestOffset st1))
         else offsetLoop sampleRate buffer maxS rest (st1\<lparr>lastCorrelation := correlation\<rparr>))"

text \<open>
  The result is the number returned, \<open>None\<close> as above. For an empty buffer the root
  mean square is \<^verbatim>\<open>NaN\<close> and the test against the noise floor is false.
\<close>

definition autocorrelate :: "real list \<Rightarrow> real \<Rightarrow> real option" where
  "autocorrelate buffer sampleRate =
     (let MIN_SAMPLES = 0;
          SIZE = length buffer;
          MAX_SAMPLES = SIZE div 2
      in if SIZE \<noteq> 0 \<and> rootMeanSquare buffer < 0.01 then Some (- 1)
         else
           case offsetLoop sampleRate buffer MAX_SAMPLES [MIN_SAMPLES .. int MAX_SAMPLES - 1]
                  \<lparr>bestOffset = - 1, bestCorrelation = 0, foundGoodCorrelation = False,
                   lastCorrelation = 1, correlations = replicate MAX_SAMPLES None\<rparr> of
             Inl r \<Rightarrow> r
           | Inr st \<Rightarrow>
               if bestCorrelation st > 0.01
               then (if bestOffset st = 0 then None
                     else Some (sampleRate / real_of_int (bestOffset st)))
               else Some (- 1))"

section \<open>Properties of recordResult\<close>

lemma streak_or0_ensureStreak [simp]: "streak_or0 (ensureStreak it) = streak_or0 it"
  by (simp add: streak_or0_def ensureStreak_def)

lemma level_ensureStreak [simp]: "level (ensureStreak it) = level it"
  by (simp add: ensureStreak_def)

text \<open>
  C2. A wrong answer, whatever the note and whatever its record held before (also when
  there was none), leaves the record with streak 0, level 0 and the next review one minute
  after now; the call answers \<^verbatim>\<open>'wrong'\<close> and the new state is written to storage.
\<close>

theorem recordResult_wrong_resets:
  "recordView (snd (recordResult cardId False timeDelta now e)) cardId
     = Some (Some 0, 0, now + 1 * 60 * 1000)
   \<and> fst (recordResult cardId False timeDelta now e) = ''wrong''
   \<and> persisted (snd (recordResult cardId False timeDelta now e))"
  by (simp add: recordResult_def recordView_def recordOf_def saveData_def persisted_def Let_def)

text \<open>
  C3 as stated fails: on a fresh store a correct answer given after 3000 ms, which is
  slower than the 2500 ms threshold, raises the streak of the note from 0 to 1.
\<close>

theorem recordResult_slow_correct_raises_streak:
  "streakOf (loadData None) ''treble-C4'' = 0
   \<and> streakOf (snd (recordResult ''treble-C4'' True 3000 0 (loadData None))) ''treble-C4'' = 1
   \<and> \<not> ((3000::int) \<le> 2500)
   \<and> fst (recordResult ''treble-C4'' True 3000 0 (loadData None)) = ''slow''"
  by (simp add: recordResult_def streakOf_def recordOf_def saveData_def loadData_def
      freshData_def streak_or0_def ensureStreak_def Let_def)

text \<open>
  C3, amended. The streak counts consecutive correct answers: every correct result, fast
  or slow, raises the streak of the note by exactly 1, and every wrong result sets it to 0.
  So the streak rises only on a correct result, and then by exactly 1.
\<close>

theorem recordResult_streak_step:
  "streakOf (snd (recordResult cardId isCorrect timeDelta now e)) cardId
     = (if isCorrect then streakOf e cardId + 1 else 0)"
  by (simp add: recordResult_def streakOf_def recordOf_def saveData_def Let_def
      streak_or0_def ensureStreak_def split: option.splits)

text \<open>
  C4. A correct answer within 2500 ms raises the streak by 1, moves the level to
  \<open>min (level + 1) maxLevel\<close> where \<open>maxLevel = length intervals - 1 = 5\<close>, and
  schedules the next review at now plus the interval (in minutes) of the new level. On a
  note without a record, a first such answer after 1000 ms gives streak 1 and level 1, and
  a second one gives streak 2.
\<close>

theorem recordResult_fast_correct:
  "(timeDelta \<le> 2500 \<longrightarrow>
      recordView (snd (recordResult cardId True timeDelta now e)) cardId
        = Some (Some (streakOf e cardId + 1),
                min (levelOf e cardId + 1) (length intervals - 1),
                now + int (intervals ! min (levelOf e cardId + 1) (length intervals - 1)) * 60 * 1000))
   \<and> (recordOf e cardId = None \<longrightarrow>
        (let e1 = snd (recordResult cardId True 1000 now e);
             e2 = snd (recordResult cardId True 1000 now' e1)
         in streakOf e1 cardId = 1 \<and> levelOf e1 cardId = 1 \<and> streakOf e2 cardId = 2))"
  by (simp add: recordResult_def recordView_def streakOf_def levelOf_def recordOf_def
      saveData_def streak_or0_def ensureStreak_def Let_def intervals_def split: option.splits)

theorem recordResult_fast_correct_witness:
  "(1000::int) \<le> 2500
   \<and> recordOf (loadData None) ''treble-C4'' = None
   \<and> recordView (snd (recordResult ''treble-C4'' True 1000 0 (loadData None))) ''treble-C4''
       = Some (Some 1, 1, 300000)
   \<and> streakOf (snd (recordResult ''treble-C4'' True 1000 7
          (snd (recordResult ''treble-C4'' True 1000 0 (loadData None))))) ''treble-C4'' = 2"
  using recordResult_fast_correct [of 1000 "''treble-C4''" 0 "loadData None" 7]
  by (simp add: streakOf_def levelOf_def recordOf_def loadData_def freshData_def
      intervals_def Let_def)

section \<open>Properties of checkProgression\<close>

lemma streakAtLeast_ensureStreak: "streakAtLeast (ensureStreak it) k = (k \<le> streak_or0 it)"
  by (simp add: streakAtLeast_def ensureStreak_def streak_or0_def split: option.splits)

lemma ensure_upd_readyAt:
  "its k0 = Some it \<Longrightarrow> readyAt (its(k0 \<mapsto> ensureStreak it)) k = readyAt its k"
  by (simp add: readyAt_def)

lemma length_filter_all: "(length (filter P xs) = length xs) = (\<forall>x\<in>set xs. P x)"
proof
  assume eq: "length (filter P xs) = length xs"
  show "\<forall>x\<in>set xs. P x"
  proof
    fix x assume "x \<in> set xs"
    show "P x"
    proof (rule ccontr)
      assume "\<not> P x"
      with \<open>x \<in> set xs\<close> have "length (filter P xs) < length xs"
        by (rule length_filter_less)
      with eq show False by simp
    qed
  qed
next
  assume "\<forall>x\<in>set xs. P x"
  then have "filter P xs = xs" by simp
  then show "length (filter P xs) = length xs" by simp
qed

lemma progressionLoop_result:
  "snd (progressionLoop clef ps its r t) =
     (if \<forall>p\<in>set ps. its (keyOf clef p) \<noteq> None
      then Some (r + length (filter (\<lambda>p. readyAt its (keyOf clef p)) ps), t + length ps)
      else None)"
proof (induction ps arbitrary: its r t)
  case Nil
  then show ?case by simp
next
  case (Cons p ps)
  show ?case
  proof (cases "its (keyOf clef p)")
    case None
    then show ?thesis by (simp add: keyOf_def)
  next
    case (Some it)
    let ?its' = "its(keyOf clef p \<mapsto> ensureStreak it)"
    have pres: "\<And>k. (?its' k = None) = (its k = None)"
      using Some by simp
    have rdy: "\<And>k. readyAt ?its' k = readyAt its k"
      using Some by (rule ensure_upd_readyAt)
    have here: "readyAt its (keyOf clef p) = (REQUIRED_STREAK_PER_NOTE \<le> streak_or0 it)"
      using Some by (simp add: readyAt_def)
    show ?thesis
      using Some Cons.IH [of ?its'] 
      by (simp add: keyOf_def[symmetric] Let_def streakAtLeast_ensureStreak pres rdy here del: fun_upd_apply)
  qed
qed

lemma readyAt_present: "readyAt its k \<Longrightarrow> its k \<noteq> None"
  by (auto simp: readyAt_def split: option.splits)

lemma progressionLoop_all_ready:
  "(\<exists>its' r. progressionLoop clef ps its 0 0 = (its', Some (r, r)) \<and> 0 < r) =
     (ps \<noteq> [] \<and> (\<forall>p\<in>set ps. readyAt its (keyOf clef p)))"
proof -
  obtain its' res where eq: "progressionLoop clef ps its 0 0 = (its', res)"
    by (cases "progressionLoop clef ps its 0 0")
  have res: "res = (if \<forall>p\<in>set ps. its (keyOf clef p) \<noteq> None
      then Some (length (filter (\<lambda>p. readyAt its (keyOf clef p)) ps), length ps)
      else None)"
    using progressionLoop_result [of clef ps its 0 0] eq by simp
  show ?thesis
  proof (cases "\<forall>p\<in>set ps. its (keyOf clef p) \<noteq> None")
    case False
    then obtain p where "p \<in> set ps" "\<not> readyAt its (keyOf clef p)"
      using readyAt_present [of its] by blast
    with False show ?thesis by (auto simp: eq res)
  next
    case True
    have "(length ps = length (filter (\<lambda>p. readyAt its (keyOf clef p)) ps)) =
            (\<forall>p\<in>set ps. readyAt its (keyOf clef p))"
      using length_filter_all [of "\<lambda>p. readyAt its (keyOf clef p)" ps] by auto
    with True show ?thesis by (auto simp: eq res)
  qed
qed

lemma checkProgression_fires_iff:
  "fst (checkProgression clef e) =
     (0 < unlockedCount (data e) \<and> unlockedCount (data e) < length (progression_of clef)
      \<and> allMastered clef e)"
proof (cases "unlockedCount (data e) < length (progression_of clef)")
  case False
  then show ?thesis by (simp add: checkProgression_def Let_def)
next
  case True
  let ?ps = "take (unlockedCount (data e)) (progression_of clef)"
  have ne: "(?ps \<noteq> []) = (0 < unlockedCount (data e))"
    using True by auto
  obtain its' res where eq: "progressionLoop clef ?ps (items (data e)) 0 0 = (its', res)"
    by (cases "progressionLoop clef ?ps (items (data e)) 0 0")
  have "fst (checkProgression clef e) = (\<exists>r. res = Some (r, r) \<and> 0 < r)"
    using True eq by (auto simp: checkProgression_def Let_def split: option.splits)
  also have "\<dots> = (\<exists>its' r. progressionLoop clef ?ps (items (data e)) 0 0 = (its', Some (r, r)) \<and> 0 < r)"
    using eq by auto
  also have "\<dots> = (?ps \<noteq> [] \<and> (\<forall>p\<in>set ?ps. readyAt (items (data e)) (keyOf clef p)))"
    by (rule progressionLoop_all_ready)
  finally show ?thesis
    using True ne by (auto simp: allMastered_def unlockedPrefix_def)
qed

lemma checkProgression_count:
  "unlockedCount (data (snd (checkProgression clef e))) =
     (if fst (checkProgression clef e) then unlockedCount (data e) + 1 else unlockedCount (data e))"
  by (simp add: checkProgression_def Let_def saveData_def split: prod.splits option.splits)

lemma checkProgression_persisted:
  "fst (checkProgression clef e) \<Longrightarrow> persisted (snd (checkProgression clef e))"
  by (simp add: checkProgression_def Let_def saveData_def persisted_def split: prod.splits option.splits if_splits)


lemmas eval_defs = progression_of_def PROGRESSION_def trebleMastered_def freshData_def
  masteredItem_def getKey_def keyOf_def digits_of.simps digit_char_def REQUIRED_STREAK_PER_NOTE_def
  unlockedPrefix_def readyAt_def streak_or0_def

text \<open>
  C5, amended. The unlock check raises \<^verbatim>\<open>unlockedCount\<close> by exactly 1, and saves, if and
  only if the unlocked prefix is not empty (\<^verbatim>\<open>unlockedCount\<close> is at least 1),
  \<^verbatim>\<open>unlockedCount\<close> is below the length of the curriculum of the clef it is called with, and
  every entry of the prefix has a record whose streak has reached the required streak;
  otherwise \<^verbatim>\<open>unlockedCount\<close> is left as it was. So one missing record or one record under
  the threshold blocks the unlock. The check never moves \<^verbatim>\<open>unlockedCount\<close> past the length
  of that curriculum: a count within it stays within it.
\<close>

theorem checkProgression_unlock:
  "fst (checkProgression clef e) =
     (0 < unlockedCount (data e) \<and> unlockedCount (data e) < length (progression_of clef)
      \<and> allMastered clef e)
   \<and> unlockedCount (data (snd (checkProgression clef e))) =
       (if fst (checkProgression clef e) then unlockedCount (data e) + 1
        else unlockedCount (data e))
   \<and> (fst (checkProgression clef e) \<longrightarrow> persisted (snd (checkProgression clef e)))
   \<and> (unlockedCount (data e) \<le> length (progression_of clef) \<longrightarrow>
        unlockedCount (data (snd (checkProgression clef e))) \<le> length (progression_of clef))"
  using checkProgression_fires_iff [of clef e] checkProgression_count [of clef e]
    checkProgression_persisted [of clef e]
  by auto

theorem checkProgression_unlock_witness:
  "allMastered ''treble'' (trebleMastered 3)
   \<and> fst (checkProgression ''treble'' (trebleMastered 3))
   \<and> unlockedCount (data (snd (checkProgression ''treble'' (trebleMastered 3)))) = 4
   \<and> persisted (snd (checkProgression ''treble'' (trebleMastered 3)))
   \<and> \<not> allMastered ''treble'' (snd (recordResult ''treble-D4'' False 900 0 (trebleMastered 3)))
   \<and> \<not> fst (checkProgression ''treble'' (snd (recordResult ''treble-D4'' False 900 0 (trebleMastered 3))))"
proof -
  have a: "allMastered ''treble'' (trebleMastered 3)"
    by (simp add: allMastered_def eval_defs)
  have b: "\<not> allMastered ''treble'' (snd (recordResult ''treble-D4'' False 900 0 (trebleMastered 3)))"
    by (simp add: allMastered_def recordResult_def saveData_def ensureStreak_def Let_def eval_defs)
  have n: "unlockedCount (data (trebleMastered 3)) = 3" "length (progression_of ''treble'') = 14"
    "unlockedCount (data (snd (recordResult ''treble-D4'' False 900 0 (trebleMastered 3)))) = 3"
    by (simp_all add: recordResult_def saveData_def Let_def eval_defs)
  show ?thesis
    using checkProgression_unlock [of "''treble''" "trebleMastered 3"]
      checkProgression_unlock [of "''treble''" "snd (recordResult ''treble-D4'' False 900 0 (trebleMastered 3))"]
      a b n
    by simp
qed

text \<open>
  C5 as stated fails in two places. With an empty prefix (\<^verbatim>\<open>unlockedCount = 0\<close>) every
  entry of the prefix is trivially mastered and the count is below the curriculum length,
  yet nothing is unlocked. And the count is not bounded by the curriculum length: after
  eleven mastered treble notes unlock a twelfth, the check for the bass clef, whose
  curriculum has eleven entries, finds and leaves \<^verbatim>\<open>unlockedCount = 12\<close>.
\<close>

theorem checkProgression_claim_counterexample:
  "unlockedPrefix ''treble'' (trebleMastered 0) = []
   \<and> unlockedCount (data (trebleMastered 0)) < length (progression_of ''treble'')
   \<and> \<not> fst (checkProgression ''treble'' (trebleMastered 0))
   \<and> unlockedCount (data (snd (checkProgression ''bass''
         (snd (checkProgression ''treble'' (trebleMastered 11)))))) = 12
   \<and> length (progression_of ''bass'') = 11"
proof -
  have c: "unlockedCount (data (snd (checkProgression ''treble'' (trebleMastered 11)))) = 12"
  proof -
    have "allMastered ''treble'' (trebleMastered 11)"
      by (simp add: allMastered_def eval_defs)
    then have "fst (checkProgression ''treble'' (trebleMastered 11))"
      by (simp add: checkProgression_fires_iff) (simp add: eval_defs)
    then show ?thesis
      by (simp add: checkProgression_count) (simp add: eval_defs)
  qed
  have d: "\<not> fst (checkProgression ''bass'' (snd (checkProgression ''treble'' (trebleMastered 11))))"
    by (simp add: checkProgression_fires_iff c) (simp add: eval_defs)
  have "\<not> fst (checkProgression ''treble'' (trebleMastered 0))"
    by (simp add: checkProgression_fires_iff) (simp add: eval_defs)
  then show ?thesis
    using c d by (simp add: checkProgression_count) (simp add: eval_defs)
qed


section \<open>Properties of checkRegression\<close>


lemma regressionLoop_out_of_range:
  "\<exists>i\<in>set idxs. \<not> i < length prog \<Longrightarrow>
   regressionLoop clef prog its idxs low tot = Inl TypeError"
  by (induction idxs arbitrary: low tot) (auto simp: Let_def)



lemma checkRegression_beyond_curriculum:
  assumes "3 < unlockedCount (data e)" and "length (progression_of clef) < unlockedCount (data e)"
  shows "checkRegression clef e = Inl TypeError"
proof -
  have "\<exists>i\<in>set [0..<unlockedCount (data e)]. \<not> i < length (progression_of clef)"
    using assms by (auto intro: bexI [of _ "length (progression_of clef)"])
  then have "regressionLoop clef (progression_of clef) (items (data e))
      [0..<unlockedCount (data e)] 0 0 = Inl TypeError"
    by (rule regressionLoop_out_of_range)
  then show ?thesis
    using assms by (simp add: checkRegression_def Let_def)
qed

lemma checkRegression_at_floor:
  "unlockedCount (data e) \<le> 3 \<Longrightarrow> checkRegression clef e = Inr (False, e)"
  by (simp add: checkRegression_def Let_def)

text \<open>
  C6 at the input where the code departs from it. Eleven mastered treble notes unlock a
  twelfth; the bass curriculum has eleven entries, none of them with a record, so the
  count of low entries (11) exceeds half of the prefix and \<^verbatim>\<open>unlockedCount = 12\<close> is above
  the floor. The regression check for the bass clef then reads \<^verbatim>\<open>prog[11]\<close>, which is
  \<^verbatim>\<open>undefined\<close>, and throws instead of decrementing.
\<close>

theorem checkRegression_throws_beyond_curriculum:
  "unlockedCount (data (snd (checkProgression ''treble'' (trebleMastered 11)))) = 12
   \<and> length (progression_of ''bass'') = 11
   \<and> lowCount ''bass'' (snd (checkProgression ''treble'' (trebleMastered 11))) = 11
   \<and> checkRegression ''bass'' (snd (checkProgression ''treble'' (trebleMastered 11)))
       = Inl TypeError"
proof -
  have c: "unlockedCount (data (snd (checkProgression ''treble'' (trebleMastered 11)))) = 12"
  proof -
    have "allMastered ''treble'' (trebleMastered 11)"
      by (simp add: allMastered_def eval_defs)
    then have "fst (checkProgression ''treble'' (trebleMastered 11))"
      by (simp add: checkProgression_fires_iff) (simp add: eval_defs)
    then show ?thesis
      by (simp add: checkProgression_count) (simp add: eval_defs)
  qed
  have l: "length (progression_of ''bass'') = 11"
    by (simp add: eval_defs)
  have t: "checkRegression ''bass'' (snd (checkProgression ''treble'' (trebleMastered 11)))
       = Inl TypeError"
    by (rule checkRegression_beyond_curriculum) (simp_all add: c l)
  have lc: "lowCount ''bass'' (snd (checkProgression ''treble'' (trebleMastered 11))) = 11"
    by (simp add: lowCount_def checkProgression_def Let_def ensureStreak_def streakAtLeast_def
        saveData_def eval_defs)
  show ?thesis using c l t lc by simp
qed


section \<open>Properties of generateCard\<close>

lemma unlockedLimit_prefix:
  "take (unlockedLimit clef e) (progression_of clef) = unlockedPrefix clef e"
  by (simp add: unlockedLimit_def unlockedPrefix_def min_def)

lemma nextReview_ensureStreak [simp]: "nextReview (ensureStreak it) = nextReview it"
  by (simp add: ensureStreak_def)

lemma ensure_upd_dueAt:
  "its k0 = Some it \<Longrightarrow> dueAt (its(k0 \<mapsto> ensureStreak it)) now k = dueAt its now k"
  by (simp add: dueAt_def)

lemma ensure_upd_strugglingAt:
  "its k0 = Some it \<Longrightarrow> strugglingAt (its(k0 \<mapsto> ensureStreak it)) k = strugglingAt its k"
  by (simp add: strugglingAt_def)

lemma poolLoop_pools:
  assumes sig: "map_of KEY_SIGNATURES keySig = Some sigNotes"
  shows "map_sum id snd (poolLoop clef keySig now entries its ps) =
     Inr (
       \<lparr>candidates = candidates ps @ map (makeCard clef keySig sigNotes)
            (filter (\<lambda>p. its (keyOf clef p) \<noteq> None) entries),
        dueItems = dueItems ps @ map (makeCard clef keySig sigNotes)
            (filter (\<lambda>p. dueAt its now (keyOf clef p)) entries),
        newItems = newItems ps @ map (makeCard clef keySig sigNotes)
            (filter (\<lambda>p. its (keyOf clef p) = None) entries),
        strugglingItems = strugglingItems ps @ map (makeCard clef keySig sigNotes)
            (filter (\<lambda>p. strugglingAt its (keyOf clef p)) entries)\<rparr>)"
proof (induction entries arbitrary: its ps)
  case Nil
  then show ?case by simp
next
  case (Cons p rest)
  show ?case
  proof (cases "its (keyOf clef p)")
    case None
    then show ?thesis
      using Cons.IH [of its "ps\<lparr>newItems := newItems ps @ [makeCard clef keySig sigNotes p]\<rparr>"]
      by (simp add: sig keyOf_def [symmetric] Let_def dueAt_def strugglingAt_def)
  next
    case (Some it)
    let ?its' = "its(keyOf clef p \<mapsto> ensureStreak it)"
    have pres: "\<And>k. (?its' k = None) = (its k = None)"
      using Some by simp
    have due: "\<And>k. dueAt ?its' now k = dueAt its now k"
      using Some by (rule ensure_upd_dueAt)
    have str: "\<And>k. strugglingAt ?its' k = strugglingAt its k"
      using Some by (rule ensure_upd_strugglingAt)
    have here: "dueAt its now (keyOf clef p) = (nextReview it \<le> now)"
      "strugglingAt its (keyOf clef p) = (level it = 0 \<or> streak_or0 it < REQUIRED_STREAK_PER_NOTE)"
      using Some by (simp_all add: dueAt_def strugglingAt_def)
    let ?c = "makeCard clef keySig sigNotes p"
    let ?ps1 = "if nextReview it \<le> now then ps\<lparr>dueItems := dueItems ps @ [?c]\<rparr> else ps"
    let ?ps2 = "if level it = 0 \<or> streak_or0 it < REQUIRED_STREAK_PER_NOTE
                then ?ps1\<lparr>strugglingItems := strugglingItems ?ps1 @ [?c]\<rparr> else ?ps1"
    let ?ps3 = "?ps2\<lparr>candidates := candidates ?ps2 @ [?c]\<rparr>"
    have step: "poolLoop clef keySig now (p # rest) its ps = poolLoop clef keySig now rest ?its' ?ps3"
      using Some by (simp add: sig keyOf_def [symmetric] Let_def del: fun_upd_apply)
    show ?thesis
      unfolding step
      using Some Cons.IH [of ?its' ?ps3]
      by (simp add: pres due str here del: fun_upd_apply)
  qed
qed


lemma find_filter_Cons: "find P xs = Some p \<Longrightarrow> \<exists>ys. filter P xs = p # ys"
  by (induction xs) (auto split: if_splits)

lemma generateCard_pools:
  assumes sig: "map_of KEY_SIGNATURES keySig = Some sigNotes"
  shows "\<exists>its' ps'.
     poolLoop clef keySig now (unlockedPrefix clef e) (items (data e)) emptyPools = Inr (its', ps')
     \<and> generateCard clef keySig now rnd e =
         Inr (selectCard ps' rnd (fallbackCard clef keySig), e\<lparr>data := (data e)\<lparr>items := its'\<rparr>\<rparr>)
     \<and> candidates ps' = map (makeCard clef keySig sigNotes)
            (filter (\<lambda>p. items (data e) (keyOf clef p) \<noteq> None) (unlockedPrefix clef e))
     \<and> dueItems ps' = map (makeCard clef keySig sigNotes)
            (filter (\<lambda>p. dueAt (items (data e)) now (keyOf clef p)) (unlockedPrefix clef e))
     \<and> newItems ps' = map (makeCard clef keySig sigNotes)
            (filter (\<lambda>p. items (data e) (keyOf clef p) = None) (unlockedPrefix clef e))
     \<and> strugglingItems ps' = map (makeCard clef keySig sigNotes)
            (filter (\<lambda>p. strugglingAt (items (data e)) (keyOf clef p)) (unlockedPrefix clef e))"
proof -
  let ?loop = "poolLoop clef keySig now (unlockedPrefix clef e) (items (data e)) emptyPools"
  have m: "map_sum id snd ?loop = Inr
       \<lparr>candidates = candidates emptyPools @ map (makeCard clef keySig sigNotes)
            (filter (\<lambda>p. items (data e) (keyOf clef p) \<noteq> None) (unlockedPrefix clef e)),
        dueItems = dueItems emptyPools @ map (makeCard clef keySig sigNotes)
            (filter (\<lambda>p. dueAt (items (data e)) now (keyOf clef p)) (unlockedPrefix clef e)),
        newItems = newItems emptyPools @ map (makeCard clef keySig sigNotes)
            (filter (\<lambda>p. items (data e) (keyOf clef p) = None) (unlockedPrefix clef e)),
        strugglingItems = strugglingItems emptyPools @ map (makeCard clef keySig sigNotes)
            (filter (\<lambda>p. strugglingAt (items (data e)) (keyOf clef p)) (unlockedPrefix clef e))\<rparr>"
    using sig by (rule poolLoop_pools)
  then obtain its' ps' where l: "?loop = Inr (its', ps')"
    by (cases ?loop) auto
  have g: "generateCard clef keySig now rnd e =
         Inr (selectCard ps' rnd (fallbackCard clef keySig), e\<lparr>data := (data e)\<lparr>items := its'\<rparr>\<rparr>)"
    using l by (simp add: generateCard_def Let_def unlockedLimit_prefix)
  show ?thesis
    using m l g by (auto simp: emptyPools_def)
qed

text \<open>
  C8. When the new-note branch is taken, \<^verbatim>\<open>generateCard\<close> returns the card of the first
  unlocked curriculum entry that has no mastery record, in curriculum order, whatever the
  other draws are.
\<close>

theorem generateCard_new_branch:
  assumes sig: "map_of KEY_SIGNATURES keySig = Some sigNotes"
    and new: "firstNew clef e = Some p"
    and taken: "newBranchTaken clef rnd e"
  shows "map_sum id fst (generateCard clef keySig now rnd e)
           = Inr (Some (makeCard clef keySig sigNotes p))"
proof -
  obtain its' ps' where
    g: "generateCard clef keySig now rnd e =
         Inr (selectCard ps' rnd (fallbackCard clef keySig), e\<lparr>data := (data e)\<lparr>items := its'\<rparr>\<rparr>)"
    and n: "newItems ps' = map (makeCard clef keySig sigNotes)
            (filter (\<lambda>p. items (data e) (keyOf clef p) = None) (unlockedPrefix clef e))"
    and s: "strugglingItems ps' = map (makeCard clef keySig sigNotes)
            (filter (\<lambda>p. strugglingAt (items (data e)) (keyOf clef p)) (unlockedPrefix clef e))"
    using generateCard_pools [OF sig, of clef now e rnd] by blast
  obtain ys where "filter (\<lambda>p. items (data e) (keyOf clef p) = None) (unlockedPrefix clef e) = p # ys"
    using find_filter_Cons [OF new [unfolded firstNew_def recordOf_def]] by blast
  then have n': "newItems ps' = makeCard clef keySig sigNotes p # map (makeCard clef keySig sigNotes) ys"
    using n by simp
  have s': "(strugglingItems ps' \<noteq> []) = anyStruggling clef e"
    by (simp add: s anyStruggling_def filter_empty_conv)
  have "selectCard ps' rnd (fallbackCard clef keySig) = Some (makeCard clef keySig sigNotes p)"
    using taken new by (auto simp: selectCard_def newBranchTaken_def n' s' Let_def)
  then show ?thesis
    by (simp add: g)
qed

lemma pick_member: "pick xs r = Some c \<Longrightarrow> c \<in> set xs"
proof -
  assume a: "pick xs r = Some c"
  let ?i = "\<lfloor>r * real (length xs)\<rfloor>"
  from a have r: "0 \<le> ?i" "?i < int (length xs)" "c = xs ! nat ?i"
    by (auto simp: pick_def Let_def split: if_splits)
  then have "nat ?i < length xs" by linarith
  then show ?thesis using r(3) by simp
qed

text \<open>
  Every card \<^verbatim>\<open>generateCard\<close> returns is either the card of a curriculum entry with index
  below \<^verbatim>\<open>unlockedCount\<close> or the hardcoded fallback card.
\<close>

lemma generateCard_prefix_or_fallback:
  assumes "generateCard clef keySig now rnd e = Inr (Some c, e')"
  shows "c = fallbackCard clef keySig
     \<or> (\<exists>sigNotes i. map_of KEY_SIGNATURES keySig = Some sigNotes
          \<and> i < unlockedCount (data e) \<and> i < length (progression_of clef)
          \<and> c = makeCard clef keySig sigNotes (progression_of clef ! i))"
proof (cases "map_of KEY_SIGNATURES keySig")
  case None
  have "unlockedPrefix clef e = [] \<or> (\<exists>p ps. unlockedPrefix clef e = p # ps)"
    by (cases "unlockedPrefix clef e") auto
  then show ?thesis
    using assms None
    by (auto simp: generateCard_def Let_def unlockedLimit_prefix selectCard_def emptyPools_def)
next
  case (Some sigNotes)
  obtain its' ps' where
    g: "generateCard clef keySig now rnd e =
         Inr (selectCard ps' rnd (fallbackCard clef keySig), e\<lparr>data := (data e)\<lparr>items := its'\<rparr>\<rparr>)"
    and c: "candidates ps' = map (makeCard clef keySig sigNotes)
            (filter (\<lambda>p. items (data e) (keyOf clef p) \<noteq> None) (unlockedPrefix clef e))"
    and d: "dueItems ps' = map (makeCard clef keySig sigNotes)
            (filter (\<lambda>p. dueAt (items (data e)) now (keyOf clef p)) (unlockedPrefix clef e))"
    and n: "newItems ps' = map (makeCard clef keySig sigNotes)
            (filter (\<lambda>p. items (data e) (keyOf clef p) = None) (unlockedPrefix clef e))"
    and s: "strugglingItems ps' = map (makeCard clef keySig sigNotes)
            (filter (\<lambda>p. strugglingAt (items (data e)) (keyOf clef p)) (unlockedPrefix clef e))"
    using generateCard_pools [OF Some, of clef now e rnd] by blast
  have sel: "selectCard ps' rnd (fallbackCard clef keySig) = Some c"
    using assms g by simp
  have "c = fallbackCard clef keySig
      \<or> c \<in> set (strugglingItems ps') \<or> c \<in> set (newItems ps')
      \<or> c \<in> set (dueItems ps') \<or> c \<in> set (candidates ps')"
    using sel
    by (auto simp: selectCard_def Let_def split: if_splits list.splits dest: pick_member)
  then have "c = fallbackCard clef keySig
      \<or> c \<in> makeCard clef keySig sigNotes ` set (unlockedPrefix clef e)"
    unfolding c d n s by auto
  then show ?thesis
  proof
    assume "c = fallbackCard clef keySig"
    then show ?thesis by simp
  next
    assume "c \<in> makeCard clef keySig sigNotes ` set (unlockedPrefix clef e)"
    then obtain p where p: "p \<in> set (unlockedPrefix clef e)" "c = makeCard clef keySig sigNotes p"
      by auto
    then obtain i where "i < length (unlockedPrefix clef e)" "unlockedPrefix clef e ! i = p"
      by (auto simp: in_set_conv_nth)
    then have "i < unlockedCount (data e)" "i < length (progression_of clef)"
      "progression_of clef ! i = p"
      by (simp_all add: unlockedPrefix_def)
    with p Some show ?thesis by blast
  qed
qed

text \<open>
  C7 at the input where the code departs from it. On a fresh store all three unlocked bass
  notes are new, so no note has a record and the review pool \<^verbatim>\<open>candidates\<close> is empty; when
  the draw of the new-note branch is 0.5, not below 0.3, the function falls through to the
  hardcoded card C4 with id \<^verbatim>\<open>'fallback'\<close>, which is no entry of the bass curriculum.
\<close>

theorem generateCard_returns_fallback:
  "generateCard ''bass'' ''C'' 0 (\<lambda>k. 1 / 2) (loadData None)
     = Inr (Some \<lparr>card_clef = ''bass'', card_keySig = ''C'', card_note = ''C'', card_octave = 4,
                   card_accidental = None, card_id = ''fallback''\<rparr>, loadData None)
   \<and> unlockedCount (data (loadData None)) = 3
   \<and> (''C'', 4) \<notin> set (progression_of ''bass'')
   \<and> ''fallback'' \<notin> set (map (keyOf ''bass'') (progression_of ''bass''))"
  by (simp add: generateCard_def unlockedLimit_def loadData_def freshData_def Let_def
      KEY_SIGNATURES_def makeCard_def accidentalFor_def emptyPools_def selectCard_def
      fallbackCard_def eval_defs)

theorem generateCard_new_branch_witness:
  "map_of KEY_SIGNATURES ''G'' = Some [''F#'']
   \<and> firstNew ''treble'' (snd (recordResult ''treble-C4'' True 1000 0 (loadData None))) = Some (''D'', 4)
   \<and> newBranchTaken ''treble'' (\<lambda>k. if k = 0 then 1 / 2 else 1 / 10)
        (snd (recordResult ''treble-C4'' True 1000 0 (loadData None)))
   \<and> map_sum id fst (generateCard ''treble'' ''G'' 60000 (\<lambda>k. if k = 0 then 1 / 2 else 1 / 10)
        (snd (recordResult ''treble-C4'' True 1000 0 (loadData None))))
       = Inr (Some \<lparr>card_clef = ''treble'', card_keySig = ''G'', card_note = ''D'', card_octave = 4,
                   card_accidental = None, card_id = ''treble-D4''\<rparr>)"
proof -
  let ?e = "snd (recordResult ''treble-C4'' True 1000 0 (loadData None))"
  have sig: "map_of KEY_SIGNATURES ''G'' = Some [''F#'']"
    by (simp add: KEY_SIGNATURES_def)
  have new: "firstNew ''treble'' ?e = Some (''D'', 4)"
    by (simp add: firstNew_def recordOf_def recordResult_def saveData_def loadData_def
        ensureStreak_def intervals_def Let_def eval_defs)
  have taken: "newBranchTaken ''treble'' (\<lambda>k. if k = 0 then 1 / 2 else 1 / 10) ?e"
    unfolding newBranchTaken_def new
    by (simp add: anyStruggling_def strugglingAt_def recordResult_def saveData_def loadData_def
        ensureStreak_def intervals_def Let_def eval_defs)
  show ?thesis
    using generateCard_new_branch [OF sig new taken, of 60000] sig new taken
    by (simp add: makeCard_def accidentalFor_def startsWith_def getKey_def digits_of.simps digit_char_def)
qed


section \<open>The global unlock count\<close>






section \<open>Properties of autocorrelate\<close>

lemma harmonicLoop_band:
  "harmonicLoop d cs sr m hs (bf, bfc) = (bf', bfc') \<Longrightarrow>
   bf = d \<or> (expectedMin \<le> bf \<and> bf \<le> expectedMax) \<Longrightarrow>
   bf' = d \<or> (expectedMin \<le> bf' \<and> bf' \<le> expectedMax)"
proof (induction hs arbitrary: bf bfc)
  case Nil
  then show ?case by simp
next
  case (Cons h hs)
  from Cons.prems show ?case
    by (auto simp: Let_def split: if_splits option.splits dest!: Cons.IH)
qed

lemma findFundamentalFrequency_band:
  "findFundamentalFrequency d cs sr m dc = - 1
   \<or> (expectedMin \<le> findFundamentalFrequency d cs sr m dc
      \<and> findFundamentalFrequency d cs sr m dc \<le> expectedMax)"
proof -
  obtain bf bfc where h: "harmonicLoop d cs sr m [2, 3, 4, 5, 6] (d, dc) = (bf, bfc)"
    by (cases "harmonicLoop d cs sr m [2, 3, 4, 5, 6] (d, dc)")
  then have "bf = d \<or> (expectedMin \<le> bf \<and> bf \<le> expectedMax)"
    by (rule harmonicLoop_band) simp
  then show ?thesis
    unfolding findFundamentalFrequency_def Let_def h by auto
qed

lemma findFundamentalFrequency_positive:
  "0 < findFundamentalFrequency d cs sr m dc \<Longrightarrow>
   expectedMin \<le> findFundamentalFrequency d cs sr m dc
   \<and> findFundamentalFrequency d cs sr m dc \<le> expectedMax"
  using findFundamentalFrequency_band [of d cs sr m dc] by auto

lemma lagLoop_band:
  "lagLoop sr nb minS maxS offs st = Inl f \<Longrightarrow> expectedMin \<le> f \<and> f \<le> expectedMax"
proof (induction offs arbitrary: st)
  case Nil
  then show ?case by simp
next
  case (Cons off offs)
  from Cons.prems show ?case
    by (auto simp: Let_def split: if_splits option.splits
        dest!: Cons.IH dest: findFundamentalFrequency_positive)
qed

lemma peakLoop_band:
  "peakLoop fr cs sr minS bc ps = Some f \<Longrightarrow> expectedMin \<le> f \<and> f \<le> expectedMax"
proof (induction ps)
  case Nil
  then show ?case by simp
next
  case (Cons p ps)
  from Cons.prems show ?case
    by (auto simp: Let_def split: if_splits dest!: Cons.IH dest: findFundamentalFrequency_positive)
qed

lemma afterLoop_band:
  "afterLoop sr minS maxS st = - 1
   \<or> (expectedMin \<le> afterLoop sr minS maxS st \<and> afterLoop sr minS maxS st \<le> expectedMax)"
proof -
  let ?fr = "sr / real_of_int (bestOffset st)"
  let ?fund = "findFundamentalFrequency ?fr (correlations st) sr minS (bestCorrelation st)"
  have b: "?fund = - 1 \<or> (expectedMin \<le> ?fund \<and> ?fund \<le> expectedMax)"
    by (rule findFundamentalFrequency_band)
  have m: "expectedMin = 60" by (simp add: expectedMin_def)
  show ?thesis
    using b m
    by (auto simp: afterLoop_def Let_def split: option.splits dest: peakLoop_band)
qed

lemma autocorrelate_rev_result:
  "autocorrelate_rev buffer sampleRate = Inr f \<Longrightarrow>
   f = - 1 \<or> (expectedMin \<le> f \<and> f \<le> expectedMax)"
  using afterLoop_band
  by (auto simp: autocorrelate_rev_def Let_def split: if_splits sum.splits dest: lagLoop_band)

lemma rootMeanSquare_below:
  "(rootMeanSquare buffer < 0.005) = ((\<Sum>v\<leftarrow>buffer. v * v) / real (length buffer) < 0.000025)"
proof -
  have s: "sqrt 0.000025 = (0.005::real)"
    by (rule real_sqrt_unique) (simp_all add: power2_eq_square)
  have "(rootMeanSquare buffer < 0.005) = (rootMeanSquare buffer < sqrt 0.000025)"
    by (simp only: s)
  also have "\<dots> = ((\<Sum>v\<leftarrow>buffer. v * v) / real (length buffer) < 0.000025)"
    unfolding rootMeanSquare_def by (rule real_sqrt_less_iff)
  finally show ?thesis .
qed

lemma rootMeanSquare_below_first:
  "(rootMeanSquare buffer < 0.01) = ((\<Sum>v\<leftarrow>buffer. v * v) / real (length buffer) < 0.0001)"
proof -
  have s: "sqrt 0.0001 = (0.01::real)"
    by (rule real_sqrt_unique) (simp_all add: power2_eq_square)
  have "(rootMeanSquare buffer < 0.01) = (rootMeanSquare buffer < sqrt 0.0001)"
    by (simp only: s)
  also have "\<dots> = ((\<Sum>v\<leftarrow>buffer. v * v) / real (length buffer) < 0.0001)"
    unfolding rootMeanSquare_def by (rule real_sqrt_less_iff)
  finally show ?thesis .
qed

text \<open>
  The revision of src/unnamed/part_006 keeps to the band: whatever the buffer and the
  sample rate, a positive frequency it returns lies between 60 Hz and 400 Hz, and a result
  outside the band is the sentinel \<open>-1\<close>.
\<close>

lemma autocorrelate_rev_in_band:
  "autocorrelate_rev buffer sampleRate = Inr f \<Longrightarrow>
   (0 < f \<longrightarrow> expectedMin \<le> f \<and> f \<le> expectedMax)
   \<and> (f < expectedMin \<or> expectedMax < f \<longrightarrow> f = - 1)"
  using autocorrelate_rev_result [of buffer sampleRate f]
  by (auto simp: expectedMin_def)

lemma autocorrelate_rev_example:
  "autocorrelate_rev [1, 0, 0, 1, 0, 0, 1, 0] 1000 = Inr (1000 / 3)"
  apply (simp only: autocorrelate_rev_def Let_def rootMeanSquare_below)
  apply code_simp
  done

lemma autocorrelate_rev_rejects:
  "autocorrelate_rev [1, 0, 0, 1, 0, 0, 1, 0, 0, 1, 0, 0] 1500 = Inr (- 1)"
  apply (simp only: autocorrelate_rev_def Let_def rootMeanSquare_below)
  apply code_simp
  done

lemma autocorrelate_first_example:
  "autocorrelate [1, 0, 0, 1, 0, 0, 1, 0, 0, 1, 0, 0] 1500 = Some 500"
  apply (simp only: autocorrelate_def Let_def rootMeanSquare_below_first)
  apply code_simp
  done

text \<open>
  C9 on the code. The buffer repeats with a period of three samples; at a sample rate of
  1500 Hz \<^verbatim>\<open>autocorrelate\<close> of src/pitch-detector.js finds its best lag at 3, takes the
  interpolation branch at lag 4 with a shift of 0 and returns \<open>1500 / 3 = 500\<close>: a
  positive frequency above the expected band of 60 Hz to 400 Hz, where the sentinel
  \<open>-1\<close> is due. The revision of src/unnamed/part_006 returns \<open>-1\<close> on the same input.
\<close>

theorem autocorrelate_out_of_band:
  "autocorrelate [1, 0, 0, 1, 0, 0, 1, 0, 0, 1, 0, 0] 1500 = Some 500
   \<and> (0::real) < 500
   \<and> \<not> (expectedMin \<le> 500 \<and> 500 \<le> expectedMax)
   \<and> autocorrelate_rev [1, 0, 0, 1, 0, 0, 1, 0, 0, 1, 0, 0] 1500 = Inr (- 1)"
  using autocorrelate_first_example autocorrelate_rev_rejects
  by (simp add: expectedMax_def)

section \<open>Properties of frequencyToNote\<close>

text \<open>
  C1 on the code. For 440 Hz \<^verbatim>\<open>frequencyToNote\<close> of src/pitch-detector.js finds
  \<open>noteNumber = 9\<close> and the note A, but computes the octave as
  \<open>4 + floor((9 + 9) / 12) = 5\<close>.
\<close>

theorem frequencyToNote_A440:
  "frequencyToNote 440
     = Some \<lparr>note_name = ''A'', note_octave = 5, note_frequency = 440, note_accidental = None\<rparr>"
  by (simp add: frequencyToNote_def Let_def js_rem_def noteNames_def accidentalOf_def)

text \<open>The revision in src/unnamed/part_006 returns A in octave 4 for 440 Hz.\<close>

lemma frequencyToNote_rev_A440:
  "frequencyToNote_rev 440
     = Some \<lparr>note_name = ''A'', note_octave = 4, note_frequency = 440, note_accidental = None\<rparr>"
  by (simp add: frequencyToNote_rev_def Let_def js_rem_def noteNames_def accidentalOf_def)

lemma frequencyToNote_not_positive:
  "frequency \<le> 0 \<Longrightarrow> frequencyToNote frequency = None \<and> frequencyToNote_rev frequency = None"
  by (simp add: frequencyToNote_def frequencyToNote_rev_def)

end
